theory Spec2Isabelle
  imports Main "HOL-Library.Char_ord" "HOL-Library.List_Lexorder" "HOL-Library.Sublist"
begin

section \<open>Data model\<close>

text \<open>
  The component \<open>SiteMap\<close> keeps a GeoJSON feature collection of archaeological sites,
  a set of attribute filters, a timeline period and a site/building selection.
  Strings are byte sequences (the UTF-8 encoding of the source text); \<open>===\<close> on strings
  is equality of these sequences. The dataset is written once, by the loader; everything
  after the load reads it only, so the filter engine, the options and the selection are
  modelled on the dataset as a value, and the loader alone on objects with identity.
\<close>

subsection \<open>JavaScript \<open>Set\<close> of strings\<close>

text \<open>
  A \<open>Set\<close> iterates in insertion order and holds no duplicates: it is modelled by the
  list of its elements in insertion order.
\<close>

type_synonym 'a js_set = "'a list"

definition set_has :: "'a js_set \<Rightarrow> 'a \<Rightarrow> bool" where
  "set_has s v = (v \<in> set s)"

definition set_add :: "'a \<Rightarrow> 'a js_set \<Rightarrow> 'a js_set" where
  "set_add v s = (if set_has s v then s else s @ [v])"

definition set_delete :: "'a \<Rightarrow> 'a js_set \<Rightarrow> 'a js_set" where
  "set_delete v s = removeAll v s"

definition set_size :: "'a js_set \<Rightarrow> nat" where
  "set_size s = length s"

text \<open>\<open>new Set(iterable)\<close> adds the elements one after the other.\<close>

definition new_Set :: "'a list \<Rightarrow> 'a js_set" where
  "new_Set xs = fold set_add xs []"

text \<open>\<open>Array.prototype.includes\<close> and \<open>Array.prototype.some\<close>.\<close>

definition array_includes :: "'a list \<Rightarrow> 'a \<Rightarrow> bool" where
  "array_includes xs v = (v \<in> set xs)"

definition array_some :: "('a \<Rightarrow> bool) \<Rightarrow> 'a list \<Rightarrow> bool" where
  "array_some p xs = list_ex p xs"

subsection \<open>Timeline segments\<close>

record segment =
  seg_id :: string
  seg_label :: string
  seg_start :: int
  seg_end :: int
  seg_tags :: "string list"

definition timelineSegments :: "segment list" where
  "timelineSegments = [
    \<lparr>seg_id = ''archaic'', seg_label = ''Archaic & Early'', seg_start = -800, seg_end = -480,
     seg_tags = [''Archaic'', ''Late Archaic'', ''Peisistratid'']\<rparr>,
    \<lparr>seg_id = ''classical'', seg_label = ''Classical'', seg_start = -480, seg_end = -323,
     seg_tags = [''Early Classical'', ''Periclean'', ''Classical'', ''Lycurgan Period'',
       ''Late Classical'']\<rparr>,
    \<lparr>seg_id = ''hellenistic'', seg_label = ''Hellenistic'', seg_start = -323, seg_end = -30,
     seg_tags = [''Hellenistic'', ''Early Hellenistic'', ''Late Hellenistic'', ''Seleucid'',
       ''Ptolemaic'', ''Pergamene'']\<rparr>,
    \<lparr>seg_id = ''republican'', seg_label = ''Republican'', seg_start = -509, seg_end = -27,
     seg_tags = [''Early Republican'', ''Middle Republican'', ''Late Republican'', ''Republican'',
       ''Sullan'', ''Caesarian Period'', ''Triumviral Period'']\<rparr>,
    \<lparr>seg_id = ''earlyEmpire'', seg_label = ''Early Empire'', seg_start = -27, seg_end = 192,
     seg_tags = [''Augustan'', ''Tiberian'', ''Julio-Claudian'', ''Flavian'',
       ''Nerva'' @ [CHR 0xE2, CHR 0x80, CHR 0x93] @ ''Trajanian'', ''Hadrian'', ''Antonine'']\<rparr>,
    \<lparr>seg_id = ''lateEmpire'', seg_label = ''Late Empire'', seg_start = 193, seg_end = 476,
     seg_tags = [''Severan'', ''Crisis of 3rd Century'', ''Diocletian-Tetrarch'',
       ''Constantinian'', ''Late Roman'', ''Late Antique'']\<rparr>]"

text \<open>The allowed morphology filter values.\<close>

definition allowedMorphologies :: "string list" where
  "allowedMorphologies = [
    ''prostyle'', ''amphiprostyle'', ''pseudoperipteral'', ''peripteral'', ''dipteral'',
    ''pseudodipteral'', ''distyle in antis'', ''tetrastyle'', ''hexastyle'',
    ''octastyle'', ''nonastyle'', ''peristyle'', ''linear'', ''U-shape'', ''L-shape'']"

subsection \<open>Buildings, sites and the filter state\<close>

text \<open>
  A building of the loaded dataset: every filterable attribute is an array of strings.
  The keys of the \<open>filters\<close> object are \<open>order\<close>, \<open>morphology\<close> and \<open>age\<close>.
\<close>

record building =
  b_id :: string
  b_doc_id :: string
  b_order :: "string list"
  b_morphology :: "string list"
  b_age :: "string list"
  b_date :: "string list"
  b_url :: string
  b_style_evidence :: "string list"
  b_date_evidence :: "string list"

datatype attr = Order | Morphology | Age

text \<open>\<open>b[attr]\<close> for the three keys the filter loop visits.\<close>

fun attr_of :: "building \<Rightarrow> attr \<Rightarrow> string list" where
  "attr_of b Order = b_order b"
| "attr_of b Morphology = b_morphology b"
| "attr_of b Age = b_age b"

text \<open>
  A feature: \<open>f.properties.site\<close>, \<open>f.properties.buildings\<close>; everything else the feature
  carries (geometry, further properties) is the extension part of the record, which the
  spread \<open>{ ...f, properties: { ...f.properties, buildings: bs } }\<close> copies.
\<close>

record feature =
  site :: string
  buildings :: "building list"

type_synonym filters = "attr \<Rightarrow> string js_set"

datatype error = TypeError

section \<open>The filter engine\<close>

text \<open>
  A value used as a condition: \<open>null\<close> and the empty string are falsy, every other string
  is truthy.
\<close>

definition truthy :: "string option \<Rightarrow> bool" where
  "truthy v = (case v of None \<Rightarrow> False | Some s \<Rightarrow> s \<noteq> [])"

text \<open>
  \<open>timelineSegments.find(s => s.id === selectedPeriod).tags\<close>: \<open>find\<close> gives \<open>undefined\<close>
  when no segment has the id, and reading \<open>.tags\<close> of it throws a \<open>TypeError\<close>.
\<close>

definition tagsOf :: "string \<Rightarrow> error + string list" where
  "tagsOf pid =
     (case List.find (\<lambda>s. seg_id s = pid) timelineSegments of
        None \<Rightarrow> Inl TypeError
      | Some s \<Rightarrow> Inr (seg_tags s))"

text \<open>
  \<open>const periodTags = selectedPeriod ? new Set(timelineSegments.find(...).tags) : null\<close>
\<close>

definition periodTags :: "string option \<Rightarrow> error + string js_set option" where
  "periodTags selectedPeriod =
     (case selectedPeriod of
        None \<Rightarrow> Inr None
      | Some pid \<Rightarrow>
          if pid = [] then Inr None
          else (case tagsOf pid of
                  Inl e \<Rightarrow> Inl e
                | Inr ts \<Rightarrow> Inr (Some (new_Set ts))))"

text \<open>
  The loop \<open>for (let attr of ['order','morphology','age'])\<close> of the filter callback, with
  its early \<open>return false\<close>.
\<close>

fun attrLoop :: "filters \<Rightarrow> building \<Rightarrow> attr list \<Rightarrow> bool" where
  "attrLoop fs b [] = True"
| "attrLoop fs b (a # as) =
     (if set_size (fs a) \<noteq> 0 \<and> \<not> array_some (\<lambda>v. array_includes (attr_of b a) v) (fs a)
      then False
      else attrLoop fs b as)"

text \<open>The callback of \<open>f.properties.buildings.filter\<close>.\<close>

definition buildingFilter :: "filters \<Rightarrow> string js_set option \<Rightarrow> building \<Rightarrow> bool" where
  "buildingFilter fs pt b =
     (if \<not> attrLoop fs b [Order, Morphology, Age] then False
      else (case pt of
              None \<Rightarrow> True
            | Some T \<Rightarrow> if \<not> array_some (\<lambda>tag. set_has T tag) (b_age b) then False else True))"

text \<open>The callback of \<open>data.features.map\<close>: the feature with its buildings filtered, or \<open>null\<close>.\<close>

definition mapFeature ::
  "filters \<Rightarrow> string js_set option \<Rightarrow> 'a feature_scheme \<Rightarrow> 'a feature_scheme option" where
  "mapFeature fs pt f =
     (let bs = filter (buildingFilter fs pt) (buildings f)
      in if length bs \<noteq> 0 then Some (f\<lparr>buildings := bs\<rparr>) else None)"

text \<open>\<open>.filter(Boolean)\<close> on an array of objects and \<open>null\<close>s.\<close>

fun filterBoolean :: "'a option list \<Rightarrow> 'a list" where
  "filterBoolean [] = []"
| "filterBoolean (None # xs) = filterBoolean xs"
| "filterBoolean (Some x # xs) = x # filterBoolean xs"

text \<open>
  \<open>filteredData\<close>: the \<open>features\<close> array of the derived collection (its \<open>type\<close> is the
  constant \<open>'FeatureCollection'\<close>). \<open>data\<close> is \<open>null\<close> until the dataset is loaded.
\<close>

definition filteredData ::
  "'a feature_scheme list option \<Rightarrow> filters \<Rightarrow> string option
     \<Rightarrow> error + 'a feature_scheme list" where
  "filteredData data fs selectedPeriod =
     (case data of
        None \<Rightarrow> Inr []
      | Some features \<Rightarrow>
          (case periodTags selectedPeriod of
             Inl e \<Rightarrow> Inl e
           | Inr pt \<Rightarrow> Inr (filterBoolean (map (mapFeature fs pt) features))))"

section \<open>Filter options\<close>

text \<open>
  \<open>allOptions\<close>: one traversal adds every tag to the sets \<open>o\<close>, \<open>m\<close> and \<open>a\<close>; the result
  holds, per key, the set as a sorted array, the morphology one filtered by
  \<open>allowedMorphologies.includes\<close> first. \<open>sort()\<close> without a comparator orders strings
  lexicographically by UTF-16 code unit, here by byte; the two orders agree on all text
  but tags with characters beyond the Basic Multilingual Plane, and the set of values of
  the result is the same in either order.
\<close>

definition addBuilding ::
  "building \<Rightarrow> string js_set \<times> string js_set \<times> string js_set
     \<Rightarrow> string js_set \<times> string js_set \<times> string js_set" where
  "addBuilding b acc =
     (case acc of (o_set, m_set, a_set) \<Rightarrow>
        (fold set_add (b_order b) o_set,
         fold set_add (b_morphology b) m_set,
         fold set_add (b_age b) a_set))"

definition collectOptions ::
  "'a feature_scheme list \<Rightarrow> string js_set \<times> string js_set \<times> string js_set" where
  "collectOptions features =
     fold (\<lambda>f acc. fold addBuilding (buildings f) acc) features ([], [], [])"

definition allOptions :: "'a feature_scheme list option \<Rightarrow> attr \<Rightarrow> string list" where
  "allOptions data =
     (case data of
        None \<Rightarrow> (\<lambda>a. [])
      | Some features \<Rightarrow>
          (case collectOptions features of (o_set, m_set, a_set) \<Rightarrow>
             (\<lambda>a. case a of
                Order \<Rightarrow> sort o_set
              | Morphology \<Rightarrow> sort (filter (\<lambda>v. array_includes allowedMorphologies v) m_set)
              | Age \<Rightarrow> sort a_set)))"

text \<open>
  The earlier variant of the component, \<open>SiteMap_v4.js\<close>, builds the options by the same
  traversal and has no allow-list: \<open>morphology: Array.from(m).sort()\<close>.
\<close>

definition allOptions_v4 :: "'a feature_scheme list option \<Rightarrow> attr \<Rightarrow> string list" where
  "allOptions_v4 data =
     (case data of
        None \<Rightarrow> (\<lambda>a. [])
      | Some features \<Rightarrow>
          (case collectOptions features of (o_set, m_set, a_set) \<Rightarrow>
             (\<lambda>a. case a of
                Order \<Rightarrow> sort o_set
              | Morphology \<Rightarrow> sort m_set
              | Age \<Rightarrow> sort a_set)))"

section \<open>Component state and its transitions\<close>

record 'a app_state =
  data :: "'a feature_scheme list option"
  selectedSite :: "string option"
  selectedBuildingDocId :: "string option"
  selectedPeriod :: "string option"
  hoveredSegment :: "string option"
  filters :: filters
  dropdownOpen :: "attr \<Rightarrow> bool"

text \<open>\<open>toggleFilter\<close>: a copy of the set of \<open>attr\<close> with \<open>v\<close> deleted if present, added if not.\<close>

definition toggleFilter :: "attr \<Rightarrow> string \<Rightarrow> filters \<Rightarrow> filters" where
  "toggleFilter a v prev =
     (let s = new_Set (prev a)
      in prev(a := (if set_has s v then set_delete v s else set_add v s)))"

definition toggleDropdown :: "attr \<Rightarrow> (attr \<Rightarrow> bool) \<Rightarrow> (attr \<Rightarrow> bool)" where
  "toggleDropdown a prev = prev(a := \<not> prev a)"

definition clearFilters :: "'a app_state \<Rightarrow> 'a app_state" where
  "clearFilters st = st\<lparr>filters := (\<lambda>a. new_Set []), selectedPeriod := None\<rparr>"

definition exitSite :: "'a app_state \<Rightarrow> 'a app_state" where
  "exitSite st = st\<lparr>selectedSite := None, selectedBuildingDocId := None\<rparr>"

text \<open>The click on a site of the map layer.\<close>

definition siteClick :: "string \<Rightarrow> 'a app_state \<Rightarrow> 'a app_state" where
  "siteClick name st = st\<lparr>selectedSite := Some name, selectedBuildingDocId := None\<rparr>"

text \<open>The click on a timeline segment: \<open>setSelectedPeriod(active ? null : seg.id)\<close>.\<close>

definition segmentClick :: "segment \<Rightarrow> 'a app_state \<Rightarrow> 'a app_state" where
  "segmentClick seg st =
     (let active = (selectedPeriod st = Some (seg_id seg))
      in st\<lparr>selectedPeriod := (if active then None else Some (seg_id seg))\<rparr>)"

text \<open>
  The effect that runs after \<open>filteredData\<close> or the building selection changed: besides
  handing the derived collection to the map source, it clears a selected building that no
  feature of the derived collection holds.
\<close>

definition clearIfFilteredOut :: "'a feature_scheme list \<Rightarrow> 'b app_state \<Rightarrow> 'b app_state" where
  "clearIfFilteredOut fd st =
     (if truthy (selectedBuildingDocId st) then
        (let exists = array_some (\<lambda>f.
               array_some (\<lambda>b. Some (b_doc_id b) = selectedBuildingDocId st) (buildings f)) fd
         in if \<not> exists then st\<lparr>selectedBuildingDocId := None\<rparr> else st)
      else st)"

text \<open>
  A render computes \<open>filteredData\<close> from the state (an exception there ends the render);
  the effect then runs on the result.
\<close>

definition recompute :: "'a app_state \<Rightarrow> error + 'a app_state" where
  "recompute st =
     (case filteredData (data st) (filters st) (selectedPeriod st) of
        Inl e \<Rightarrow> Inl e
      | Inr fd \<Rightarrow> Inr (clearIfFilteredOut fd st))"

text \<open>
  \<open>visibleDocIds\<close>: the doc ids of the buildings of the first derived feature whose site is
  the selected one; empty when there is none.
\<close>

definition visibleDocIds :: "'a feature_scheme list \<Rightarrow> string option \<Rightarrow> string js_set" where
  "visibleDocIds fd sel =
     new_Set (case List.find (\<lambda>f. Some (site f) = sel) fd of
                None \<Rightarrow> []
              | Some f \<Rightarrow> map b_doc_id (buildings f))"

text \<open>
  The click on the list entry of a building with doc id \<open>docId\<close>:
  \<open>isVisible && setSelectedBuildingDocId(b.doc_id)\<close>.
\<close>

definition selectBuilding :: "'a feature_scheme list \<Rightarrow> string \<Rightarrow> 'b app_state \<Rightarrow> 'b app_state" where
  "selectBuilding fd docId st =
     (let isVisible = set_has (visibleDocIds fd (selectedSite st)) docId
      in if isVisible then st\<lparr>selectedBuildingDocId := Some docId\<rparr> else st)"

section \<open>Loading and sanitizing the dataset\<close>

text \<open>
  The loader works on the parsed payload itself, so objects are modelled with identity:
  a heap maps the address of a building object to its properties, a property holds an array
  of strings and \<open>null\<close>s or a string, and a missing key reads as \<open>undefined\<close>.
  A raw feature holds the addresses of its buildings.
\<close>

type_synonym addr = nat

datatype jsval = JArr "string option list" | JStr string

type_synonym obj = "string \<rightharpoonup> jsval"

type_synonym heap = "addr \<rightharpoonup> obj"

record raw_feature =
  rf_site :: string
  rf_buildings :: "addr list"

text \<open>
  \<open>toLowerCase\<close> on the letters A to Z; no other character lowers to a letter of
  \<open>undetermined\<close>, the only string the result is compared with.
\<close>

definition toLowerCase_char :: "char \<Rightarrow> char" where
  "toLowerCase_char c =
     (case map_of (zip ''ABCDEFGHIJKLMNOPQRSTUVWXYZ'' ''abcdefghijklmnopqrstuvwxyz'') c of
        None \<Rightarrow> c
      | Some l \<Rightarrow> l)"

definition toLowerCase :: "string \<Rightarrow> string" where
  "toLowerCase s = map toLowerCase_char s"

text \<open>\<open>v && v.toLowerCase() !== 'undetermined' && v !== '<NA>'\<close>\<close>

definition keepValue :: "string option \<Rightarrow> bool" where
  "keepValue v =
     (case v of
        None \<Rightarrow> False
      | Some s \<Rightarrow> s \<noteq> [] \<and> toLowerCase s \<noteq> ''undetermined'' \<and> s \<noteq> ''<NA>'')"

text \<open>\<open>if (Array.isArray(b[attr])) b[attr] = b[attr].filter(...)\<close>\<close>

definition sanitizeAttr :: "string \<Rightarrow> obj \<Rightarrow> obj" where
  "sanitizeAttr attr b =
     (case b attr of
        Some (JArr xs) \<Rightarrow> b(attr \<mapsto> JArr (filter keepValue xs))
      | _ \<Rightarrow> b)"

definition sanitizeBuilding :: "obj \<Rightarrow> obj" where
  "sanitizeBuilding b = fold sanitizeAttr [''order'', ''morphology'', ''age'', ''date''] b"

definition sanitizeAt :: "addr \<Rightarrow> heap \<Rightarrow> heap" where
  "sanitizeAt a h = (case h a of None \<Rightarrow> h | Some b \<Rightarrow> h(a \<mapsto> sanitizeBuilding b))"

definition sanitize :: "'a raw_feature_scheme list \<Rightarrow> heap \<Rightarrow> heap" where
  "sanitize raw h = fold (\<lambda>f h'. fold sanitizeAt (rf_buildings f) h') raw h"

text \<open>
  The \<open>then\<close> callback of the fetch: sanitize, then \<open>setData(raw)\<close>. The result is the value
  given to \<open>setData\<close> and the heap after the callback.
\<close>

definition loadData :: "'a raw_feature_scheme list \<Rightarrow> heap \<Rightarrow> 'a raw_feature_scheme list \<times> heap" where
  "loadData raw h = (raw, sanitize raw h)"

text \<open>Reading \<open>b[attr]\<close> of the building object at an address.\<close>

definition readAttr :: "heap \<Rightarrow> addr \<Rightarrow> string \<Rightarrow> jsval option" where
  "readAttr h a attr = (case h a of None \<Rightarrow> None | Some b \<Rightarrow> b attr)"

section \<open>Specification-level notions\<close>

text \<open>
  The retention rule in the words of the specification: for every attribute whose selected
  set is non-empty, one of the building's tags for it is in the set; and when a period is
  selected, the age tags of the building meet the tags of that period. A period is
  selected when \<open>selectedPeriod\<close> holds a non-empty id (the component only ever stores
  \<open>null\<close> or the id of a segment).
\<close>

definition retained_spec :: "filters \<Rightarrow> string option \<Rightarrow> building \<Rightarrow> bool" where
  "retained_spec fs sel b =
     ((\<forall>a\<in>{Order, Morphology, Age}.
         fs a \<noteq> [] \<longrightarrow> (\<exists>t\<in>set (attr_of b a). t \<in> set (fs a)))
      \<and> (case sel of
           None \<Rightarrow> True
         | Some pid \<Rightarrow>
             pid = [] \<or>
             (case tagsOf pid of
                Inl e \<Rightarrow> False
              | Inr ts \<Rightarrow> set (b_age b) \<inter> set ts \<noteq> {})))"

text \<open>
  One derived dataset is contained in another: its sites are a subsequence of the other's,
  and each of them carries a subsequence of the buildings its counterpart carries.
\<close>

definition sub_dataset :: "'a feature_scheme list \<Rightarrow> 'a feature_scheme list \<Rightarrow> bool" where
  "sub_dataset D1 D2 =
     list_emb (\<lambda>g f. site g = site f \<and> subseq (buildings g) (buildings f)
                 \<and> feature.more g = feature.more f) D1 D2"

section \<open>Example data\<close>

definition noFilters :: filters where
  "noFilters = (\<lambda>a. [])"

definition apollo :: building where
  "apollo = \<lparr>b_id = ''Temple of Apollo'', b_doc_id = ''B1'', b_order = [''Doric''],
     b_morphology = [''peripteral'', ''hexastyle''], b_age = [''Classical''], b_date = [],
     b_url = ''https://example.org/B1'', b_style_evidence = [], b_date_evidence = []\<rparr>"

definition treasury :: building where
  "treasury = \<lparr>b_id = ''Siphnian Treasury'', b_doc_id = ''B2'', b_order = [''Ionic''],
     b_morphology = [''treasury'', ''distyle in antis''], b_age = [''Archaic''], b_date = [],
     b_url = ''https://example.org/B2'', b_style_evidence = [], b_date_evidence = []\<rparr>"

definition hera :: building where
  "hera = \<lparr>b_id = ''Temple of Hera'', b_doc_id = ''B12'', b_order = [''Doric''],
     b_morphology = [''peripteral''], b_age = [''Archaic''], b_date = [],
     b_url = ''https://example.org/B12'', b_style_evidence = [], b_date_evidence = []\<rparr>"

definition delphi :: feature where
  "delphi = \<lparr>site = ''Delphi'', buildings = [apollo, treasury]\<rparr>"

definition paestum :: feature where
  "paestum = \<lparr>site = ''Paestum'', buildings = [hera]\<rparr>"

text \<open>A site whose building list is empty.\<close>

definition olympia :: feature where
  "olympia = \<lparr>site = ''Olympia'', buildings = []\<rparr>"

definition ex_state :: "unit app_state" where
  "ex_state = \<lparr>data = Some [paestum, delphi], selectedSite = Some ''Paestum'',
     selectedBuildingDocId = Some ''B12'', selectedPeriod = None, hoveredSegment = None,
     filters = noFilters(Order := [''Ionic'']), dropdownOpen = (\<lambda>a. False)\<rparr>"

definition ex_heap :: heap where
  "ex_heap = [0 \<mapsto> [''doc_id'' \<mapsto> JStr ''B1'',
     ''order'' \<mapsto> JArr [Some ''Doric'', Some ''Undetermined'', None, Some ''<NA>'', Some []]]]"

definition ex_raw :: "raw_feature list" where
  "ex_raw = [\<lparr>rf_site = ''Delphi'', rf_buildings = [0]\<rparr>]"

section \<open>Auxiliary facts\<close>

subsection \<open>Sets and the filter predicate\<close>

lemma set_fold_set_add: "set (fold set_add xs acc) = set xs \<union> set acc"
  by (induction xs arbitrary: acc) (auto simp: set_add_def set_has_def)

lemma set_new_Set: "set (new_Set xs) = set xs"
  by (simp add: new_Set_def set_fold_set_add)

lemma attrLoop_iff:
  "attrLoop fs b as \<longleftrightarrow>
     (\<forall>a\<in>set as. fs a \<noteq> [] \<longrightarrow> (\<exists>t\<in>set (attr_of b a). t \<in> set (fs a)))"
  by (induction as)
     (auto simp: set_size_def array_some_def array_includes_def list_ex_iff)

lemma all_attr: "(\<forall>a. P a) \<longleftrightarrow> P Order \<and> P Morphology \<and> P Age"
  by (metis attr.exhaust)

lemma buildingFilter_iff:
  "buildingFilter fs pt b \<longleftrightarrow>
     (\<forall>a. fs a \<noteq> [] \<longrightarrow> (\<exists>t\<in>set (attr_of b a). t \<in> set (fs a)))
     \<and> (\<forall>T. pt = Some T \<longrightarrow> set (b_age b) \<inter> set T \<noteq> {})"
  unfolding buildingFilter_def attrLoop_iff all_attr
  by (cases pt) (auto simp: array_some_def set_has_def list_ex_iff)

lemma buildingFilter_spec:
  "periodTags sel = Inr pt \<Longrightarrow> buildingFilter fs pt b = retained_spec fs sel b"
  unfolding buildingFilter_iff retained_spec_def all_attr
  by (auto simp: periodTags_def set_new_Set split: option.splits sum.splits if_splits)

subsection \<open>The derived dataset\<close>

lemma filterBoolean_map:
  "filterBoolean (map (mapFeature fs pt) d) =
     map (\<lambda>f. f\<lparr>buildings := filter (buildingFilter fs pt) (buildings f)\<rparr>)
       (filter (\<lambda>f. \<exists>b\<in>set (buildings f). buildingFilter fs pt b) d)"
  by (induction d) (auto simp: mapFeature_def Let_def filter_empty_conv)

lemma filteredData_Some:
  "periodTags sel = Inr pt \<Longrightarrow>
   filteredData (Some d) fs sel =
     Inr (map (\<lambda>f. f\<lparr>buildings := filter (buildingFilter fs pt) (buildings f)\<rparr>)
       (filter (\<lambda>f. \<exists>b\<in>set (buildings f). buildingFilter fs pt b) d))"
  by (simp add: filteredData_def filterBoolean_map)

lemma subseq_filter_mono:
  "(\<And>x. P x \<Longrightarrow> Q x) \<Longrightarrow> subseq (filter P xs) (filter Q xs)"
  by (induction xs) auto

lemma sub_dataset_mono:
  assumes "\<And>b. P b \<Longrightarrow> Q b"
  shows "sub_dataset
      (map (\<lambda>f. f\<lparr>buildings := filter P (buildings f)\<rparr>)
        (filter (\<lambda>f. \<exists>b\<in>set (buildings f). P b) d))
      (map (\<lambda>f. f\<lparr>buildings := filter Q (buildings f)\<rparr>)
        (filter (\<lambda>f. \<exists>b\<in>set (buildings f). Q b) d))"
  unfolding sub_dataset_def
proof (induction d)
  case Nil
  then show ?case by simp
next
  case (Cons f fs)
  have sub: "subseq (filter P (buildings f)) (filter Q (buildings f))"
    using assms by (rule subseq_filter_mono)
  show ?case
  proof (cases "\<exists>b\<in>set (buildings f). P b")
    case True
    then have "\<exists>b\<in>set (buildings f). Q b" using assms by blast
    with True sub Cons.IH show ?thesis by simp
  next
    case False
    with Cons.IH show ?thesis by auto
  qed
qed

subsection \<open>The sanitizer\<close>

lemma sanitizeAttr_apply:
  "sanitizeAttr k b k' =
     (if k' = k then (case b k of Some (JArr xs) \<Rightarrow> Some (JArr (filter keepValue xs)) | v \<Rightarrow> v)
      else b k')"
  by (auto simp: sanitizeAttr_def split: option.splits jsval.splits)

lemma sanitizeBuilding_apply:
  "sanitizeBuilding b k =
     (if k \<in> {''order'', ''morphology'', ''age'', ''date''}
      then (case b k of Some (JArr xs) \<Rightarrow> Some (JArr (filter keepValue xs)) | v \<Rightarrow> v)
      else b k)"
  by (simp add: sanitizeBuilding_def sanitizeAttr_apply)

lemma sanitizeBuilding_idem: "sanitizeBuilding (sanitizeBuilding b) = sanitizeBuilding b"
  by (rule ext) (auto simp: sanitizeBuilding_apply split: option.splits jsval.splits)

lemma sanitizeAt_apply:
  "sanitizeAt a h a' = (if a' = a then map_option sanitizeBuilding (h a) else h a')"
  by (auto simp: sanitizeAt_def split: option.splits)

lemma fold_sanitizeAt_apply:
  "fold sanitizeAt as h a = (if a \<in> set as then map_option sanitizeBuilding (h a) else h a)"
proof (induction as arbitrary: h)
  case Nil
  then show ?case by simp
next
  case (Cons x xs)
  have "fold sanitizeAt (x # xs) h a = fold sanitizeAt xs (sanitizeAt x h) a"
    by simp
  also have "\<dots> = (if a \<in> set xs then map_option sanitizeBuilding (sanitizeAt x h a)
                    else sanitizeAt x h a)"
    by (rule Cons.IH)
  finally have eq: "fold sanitizeAt (x # xs) h a =
      (if a \<in> set xs then map_option sanitizeBuilding (sanitizeAt x h a) else sanitizeAt x h a)" .
  show ?case
    unfolding eq by (cases "h a") (auto simp: sanitizeAt_apply sanitizeBuilding_idem)
qed

lemma sanitize_apply:
  "sanitize raw h a =
     (if a \<in> (\<Union>f\<in>set raw. set (rf_buildings f)) then map_option sanitizeBuilding (h a)
      else h a)"
proof (induction raw arbitrary: h)
  case Nil
  then show ?case by (simp add: sanitize_def)
next
  case (Cons f fs)
  have "sanitize (f # fs) h a = sanitize fs (fold sanitizeAt (rf_buildings f) h) a"
    by (simp add: sanitize_def)
  also have "\<dots> = (if a \<in> (\<Union>f\<in>set fs. set (rf_buildings f))
                    then map_option sanitizeBuilding (fold sanitizeAt (rf_buildings f) h a)
                    else fold sanitizeAt (rf_buildings f) h a)"
    by (rule Cons.IH)
  finally have eq: "sanitize (f # fs) h a =
      (if a \<in> (\<Union>f\<in>set fs. set (rf_buildings f))
       then map_option sanitizeBuilding (fold sanitizeAt (rf_buildings f) h a)
       else fold sanitizeAt (rf_buildings f) h a)" .
  show ?case
    unfolding eq by (cases "h a") (auto simp: fold_sanitizeAt_apply sanitizeBuilding_idem)
qed

section \<open>The retention rule and site pruning\<close>

lemmas ex_defs = apollo_def treasury_def hera_def delphi_def paestum_def olympia_def noFilters_def

text \<open>
  C1 (building retention rule). Whenever the period lookup succeeds, the filter engine
  returns a derived dataset, and a building of the dataset is among the derived buildings
  exactly if, for every attribute whose selected set is non-empty, one of its tags for
  that attribute is in the set, and, when a period is selected, its age tags meet the
  tags of that period.
\<close>

theorem filter_retention_rule:
  assumes "periodTags sel = Inr pt"
  shows "\<exists>D. filteredData (Some d) fs sel = Inr D \<and>
           (\<forall>f\<in>set d. \<forall>b\<in>set (buildings f).
              (b \<in> set (concat (map buildings D))) = retained_spec fs sel b)"
proof -
  let ?D = "map (\<lambda>f. f\<lparr>buildings := filter (buildingFilter fs pt) (buildings f)\<rparr>)
       (filter (\<lambda>f. \<exists>b\<in>set (buildings f). buildingFilter fs pt b) d)"
  have D: "filteredData (Some d) fs sel = Inr ?D"
    using assms by (rule filteredData_Some)
  have mem: "b \<in> set (concat (map buildings ?D)) \<longleftrightarrow>
      (\<exists>f\<in>set d. b \<in> set (buildings f) \<and> buildingFilter fs pt b)" for b
    by auto
  have "(b \<in> set (concat (map buildings ?D))) = retained_spec fs sel b"
    if "f \<in> set d" "b \<in> set (buildings f)" for f b
    unfolding mem using that buildingFilter_spec [OF assms, of fs b] by blast
  with D show ?thesis by blast
qed

theorem filter_retention_rule_witness:
  "periodTags (Some ''classical'') = Inr (Some [''Early Classical'', ''Periclean'', ''Classical'',
       ''Lycurgan Period'', ''Late Classical''])
   \<and> (\<exists>D. filteredData (Some [delphi]) (noFilters(Order := [''Doric''])) (Some ''classical'')
            = Inr D \<and>
           (\<forall>f\<in>set [delphi]. \<forall>b\<in>set (buildings f).
              (b \<in> set (concat (map buildings D)))
                = retained_spec (noFilters(Order := [''Doric''])) (Some ''classical'') b))
   \<and> retained_spec (noFilters(Order := [''Doric''])) (Some ''classical'') apollo
   \<and> \<not> retained_spec (noFilters(Order := [''Doric''])) (Some ''classical'') treasury"
proof -
  have h: "periodTags (Some ''classical'') = Inr (Some [''Early Classical'', ''Periclean'',
       ''Classical'', ''Lycurgan Period'', ''Late Classical''])"
    by (simp add: periodTags_def tagsOf_def timelineSegments_def new_Set_def set_add_def
        set_has_def)
  have t: "tagsOf ''classical'' = Inr [''Early Classical'', ''Periclean'',
       ''Classical'', ''Lycurgan Period'', ''Late Classical'']"
    by (simp add: tagsOf_def timelineSegments_def)
  have a: "retained_spec (noFilters(Order := [''Doric''])) (Some ''classical'') apollo"
    by (simp add: retained_spec_def t ex_defs)
  have b: "\<not> retained_spec (noFilters(Order := [''Doric''])) (Some ''classical'') treasury"
    by (simp add: retained_spec_def t ex_defs)
  from h a b filter_retention_rule [OF h, of "[delphi]" "noFilters(Order := [''Doric''])"]
  show ?thesis by blast
qed

text \<open>
  C8 (site pruning). Whenever the period lookup succeeds, the derived dataset consists of
  the sites with at least one building that passes, in their order, each carrying exactly
  the subsequence of its buildings that pass; no derived site has an empty building list,
  and a site is present (with its passing buildings) exactly if one of its buildings passes.
\<close>

theorem site_pruning:
  assumes "periodTags sel = Inr pt"
  shows "\<exists>D. filteredData (Some d) fs sel = Inr D
     \<and> D = map (\<lambda>f. f\<lparr>buildings := filter (retained_spec fs sel) (buildings f)\<rparr>)
             (filter (\<lambda>f. \<exists>b\<in>set (buildings f). retained_spec fs sel b) d)
     \<and> (\<forall>g\<in>set D. buildings g \<noteq> [])
     \<and> (\<forall>f\<in>set d. (f\<lparr>buildings := filter (retained_spec fs sel) (buildings f)\<rparr> \<in> set D)
                      = (\<exists>b\<in>set (buildings f). retained_spec fs sel b))"
proof -
  have eq: "buildingFilter fs pt = retained_spec fs sel"
    using buildingFilter_spec [OF assms] by (intro ext)
  let ?D = "map (\<lambda>f. f\<lparr>buildings := filter (retained_spec fs sel) (buildings f)\<rparr>)
             (filter (\<lambda>f. \<exists>b\<in>set (buildings f). retained_spec fs sel b) d)"
  have D: "filteredData (Some d) fs sel = Inr ?D"
    using filteredData_Some [OF assms, of d fs] by (simp add: eq)
  have ne: "\<forall>g\<in>set ?D. buildings g \<noteq> []"
    by (auto simp: filter_empty_conv)
  have iff: "(f\<lparr>buildings := filter (retained_spec fs sel) (buildings f)\<rparr> \<in> set ?D)
                      = (\<exists>b\<in>set (buildings f). retained_spec fs sel b)" if "f \<in> set d" for f
  proof
    assume "f\<lparr>buildings := filter (retained_spec fs sel) (buildings f)\<rparr> \<in> set ?D"
    with ne have "filter (retained_spec fs sel) (buildings f) \<noteq> []" by fastforce
    then show "\<exists>b\<in>set (buildings f). retained_spec fs sel b"
      by (simp add: filter_empty_conv)
  next
    assume "\<exists>b\<in>set (buildings f). retained_spec fs sel b"
    with that show "f\<lparr>buildings := filter (retained_spec fs sel) (buildings f)\<rparr> \<in> set ?D"
      by auto
  qed
  from D ne iff show ?thesis by blast
qed

theorem site_pruning_witness:
  "periodTags None = Inr None
   \<and> filteredData (Some [paestum, delphi]) (noFilters(Order := [''Ionic''])) None
       = Inr [delphi\<lparr>buildings := [treasury]\<rparr>]
   \<and> (\<exists>D. filteredData (Some [paestum, delphi]) (noFilters(Order := [''Ionic''])) None = Inr D
     \<and> D = map (\<lambda>f. f\<lparr>buildings :=
                 filter (retained_spec (noFilters(Order := [''Ionic''])) None) (buildings f)\<rparr>)
             (filter (\<lambda>f. \<exists>b\<in>set (buildings f).
                 retained_spec (noFilters(Order := [''Ionic''])) None b) [paestum, delphi])
     \<and> (\<forall>g\<in>set D. buildings g \<noteq> [])
     \<and> (\<forall>f\<in>set [paestum, delphi].
           (f\<lparr>buildings := filter (retained_spec (noFilters(Order := [''Ionic''])) None)
                 (buildings f)\<rparr> \<in> set D)
           = (\<exists>b\<in>set (buildings f). retained_spec (noFilters(Order := [''Ionic''])) None b)))"
proof -
  have h: "periodTags None = Inr None"
    by (simp add: periodTags_def)
  have e: "filteredData (Some [paestum, delphi]) (noFilters(Order := [''Ionic''])) None
       = Inr [delphi\<lparr>buildings := [treasury]\<rparr>]"
    by (simp add: filteredData_def h mapFeature_def buildingFilter_def set_size_def
        array_some_def array_includes_def ex_defs)
  from h e site_pruning [OF h, of "[paestum, delphi]" "noFilters(Order := [''Ionic''])"]
  show ?thesis by blast
qed

section \<open>No active filter\<close>

lemma buildingFilter_noFilters: "buildingFilter noFilters None b"
  by (simp add: buildingFilter_iff noFilters_def)

lemma filteredData_noFilters:
  "filteredData (Some d) noFilters None = Inr (filter (\<lambda>f. buildings f \<noteq> []) d)"
proof -
  have p: "periodTags None = Inr None"
    by (simp add: periodTags_def)
  have "map (\<lambda>f. f\<lparr>buildings := filter (buildingFilter noFilters None) (buildings f)\<rparr>)
       (filter (\<lambda>f. \<exists>b\<in>set (buildings f). buildingFilter noFilters None b) d)
     = filter (\<lambda>f. buildings f \<noteq> []) d"
    by (induction d) (auto simp: buildingFilter_noFilters)
  with filteredData_Some [OF p, of d noFilters] show ?thesis by simp
qed

text \<open>
  C3 (empty filter identity). As stated the claim fails: a site of the dataset that has no
  building is dropped even when no filter is active, because a feature is kept only if its
  filtered building list is non-empty.
\<close>

theorem empty_filter_identity_counterexample:
  "filteredData (Some [olympia, delphi]) noFilters None = Inr [delphi]
   \<and> [delphi] \<noteq> [olympia, delphi]"
  by (simp add: filteredData_def periodTags_def mapFeature_def buildingFilter_def set_size_def
        ex_defs)

text \<open>
  C3, amended. With every attribute set empty and no period selected, the derived dataset
  is the dataset without its sites that have no building, the remaining sites unchanged
  and in the same order; it is the dataset itself when every site has a building.
\<close>

theorem empty_filter_identity_amended:
  "filteredData (Some d) noFilters None = Inr (filter (\<lambda>f. buildings f \<noteq> []) d)
   \<and> ((\<forall>f\<in>set d. buildings f \<noteq> []) \<longrightarrow> filteredData (Some d) noFilters None = Inr d)"
  by (simp add: filteredData_noFilters)

theorem empty_filter_identity_amended_witness:
  "buildings paestum \<noteq> [] \<and> buildings delphi \<noteq> []
   \<and> filteredData (Some [paestum, delphi]) noFilters None = Inr [paestum, delphi]"
proof -
  have p: "buildings paestum \<noteq> []" and d: "buildings delphi \<noteq> []"
    by (simp_all add: ex_defs)
  then have h: "\<forall>f\<in>set [paestum, delphi]. buildings f \<noteq> []"
    by simp
  with empty_filter_identity_amended [of "[paestum, delphi]"] p d show ?thesis by blast
qed

section \<open>Changing one selected set\<close>

lemma add_shrinks:
  assumes "fs a = []" "buildingFilter (fs(a := set_add v (fs a))) pt b"
  shows "buildingFilter fs pt b"
  using assms unfolding buildingFilter_iff by (metis fun_upd_other)

lemma add_grows:
  assumes "fs a \<noteq> []" "buildingFilter fs pt b"
  shows "buildingFilter (fs(a := set_add v (fs a))) pt b"
  using assms unfolding buildingFilter_iff
  by (auto simp: set_add_def set_has_def)

lemma delete_shrinks:
  assumes "set_delete v (fs a) \<noteq> []" "buildingFilter (fs(a := set_delete v (fs a))) pt b"
  shows "buildingFilter fs pt b"
  using assms unfolding buildingFilter_iff
  by (auto simp: set_delete_def split: if_splits) 

lemma delete_grows:
  assumes "set_delete v (fs a) = []" "buildingFilter fs pt b"
  shows "buildingFilter (fs(a := set_delete v (fs a))) pt b"
  using assms unfolding buildingFilter_iff by simp

lemma filteredData_mono:
  assumes "filteredData (Some d) fs sel = Inr D"
    and "\<And>pt b. buildingFilter fs' pt b \<Longrightarrow> buildingFilter fs pt b"
  shows "\<exists>D'. filteredData (Some d) fs' sel = Inr D' \<and> sub_dataset D' D"
proof -
  from assms(1) obtain pt where pt: "periodTags sel = Inr pt"
    by (auto simp: filteredData_def split: sum.splits)
  from assms(1) have D: "D = map (\<lambda>f. f\<lparr>buildings := filter (buildingFilter fs pt) (buildings f)\<rparr>)
       (filter (\<lambda>f. \<exists>b\<in>set (buildings f). buildingFilter fs pt b) d)"
    by (simp add: filteredData_Some [OF pt])
  show ?thesis
    unfolding filteredData_Some [OF pt] D
    using sub_dataset_mono [of "buildingFilter fs' pt" "buildingFilter fs pt" d] assms(2)
    by blast
qed

lemma filteredData_anti:
  assumes "filteredData (Some d) fs sel = Inr D"
    and "\<And>pt b. buildingFilter fs pt b \<Longrightarrow> buildingFilter fs' pt b"
  shows "\<exists>D'. filteredData (Some d) fs' sel = Inr D' \<and> sub_dataset D D'"
proof -
  from assms(1) obtain pt where pt: "periodTags sel = Inr pt"
    by (auto simp: filteredData_def split: sum.splits)
  from assms(1) have D: "D = map (\<lambda>f. f\<lparr>buildings := filter (buildingFilter fs pt) (buildings f)\<rparr>)
       (filter (\<lambda>f. \<exists>b\<in>set (buildings f). buildingFilter fs pt b) d)"
    by (simp add: filteredData_Some [OF pt])
  show ?thesis
    unfolding filteredData_Some [OF pt] D
    using sub_dataset_mono [of "buildingFilter fs pt" "buildingFilter fs' pt" d] assms(2)
    by blast
qed

text \<open>
  C2 (filter monotonicity). As stated the claim fails: a value added to a selected set that
  already holds a value widens the test of that attribute, and the derived dataset grows.
\<close>

theorem filter_monotonicity_counterexample:
  "filteredData (Some [delphi]) (noFilters(Order := [''Doric''])) None
     = Inr [delphi\<lparr>buildings := [apollo]\<rparr>]
   \<and> filteredData (Some [delphi])
       ((noFilters(Order := [''Doric'']))
          (Order := set_add ''Ionic'' ((noFilters(Order := [''Doric''])) Order))) None
     = Inr [delphi]
   \<and> \<not> sub_dataset [delphi] [delphi\<lparr>buildings := [apollo]\<rparr>]"
  by (simp add: filteredData_def periodTags_def mapFeature_def buildingFilter_def set_size_def
        array_some_def array_includes_def set_add_def set_has_def sub_dataset_def ex_defs)

text \<open>
  C2, amended. Adding a value to a selected set can only shrink the derived dataset when
  the set was empty, and can only grow it when the set already held a value; removing a
  value can only grow the derived dataset when it was the last value of the set, and can
  only shrink it otherwise.
\<close>

theorem filter_monotonicity_amended:
  assumes "filteredData (Some d) fs sel = Inr D"
  shows "(\<exists>D'. filteredData (Some d) (fs(a := set_add v (fs a))) sel = Inr D' \<and>
            (if fs a = [] then sub_dataset D' D else sub_dataset D D'))
       \<and> (\<exists>D'. filteredData (Some d) (fs(a := set_delete w (fs a))) sel = Inr D' \<and>
            (if set_delete w (fs a) = [] then sub_dataset D D' else sub_dataset D' D))"
proof (intro conjI)
  show "\<exists>D'. filteredData (Some d) (fs(a := set_add v (fs a))) sel = Inr D' \<and>
            (if fs a = [] then sub_dataset D' D else sub_dataset D D')"
  proof (cases "fs a = []")
    case True
    with filteredData_mono [OF assms, of "fs(a := set_add v (fs a))"] add_shrinks [of fs a v]
    show ?thesis by auto
  next
    case False
    with filteredData_anti [OF assms, of "fs(a := set_add v (fs a))"] add_grows [of fs a _ _ v]
    show ?thesis by auto
  qed
  show "\<exists>D'. filteredData (Some d) (fs(a := set_delete w (fs a))) sel = Inr D' \<and>
            (if set_delete w (fs a) = [] then sub_dataset D D' else sub_dataset D' D)"
  proof (cases "set_delete w (fs a) = []")
    case True
    with filteredData_anti [OF assms, of "fs(a := set_delete w (fs a))"] delete_grows [of w fs a]
    show ?thesis by auto
  next
    case False
    with filteredData_mono [OF assms, of "fs(a := set_delete w (fs a))"] delete_shrinks [of w fs a]
    show ?thesis by auto
  qed
qed

theorem filter_monotonicity_amended_witness:
  "filteredData (Some [delphi]) (noFilters(Order := [''Doric''])) None
     = Inr [delphi\<lparr>buildings := [apollo]\<rparr>]
   \<and> (\<exists>D'. filteredData (Some [delphi])
          ((noFilters(Order := [''Doric'']))
             (Order := set_add ''Ionic'' ((noFilters(Order := [''Doric''])) Order))) None = Inr D'
        \<and> sub_dataset [delphi\<lparr>buildings := [apollo]\<rparr>] D')
   \<and> (\<exists>D'. filteredData (Some [delphi])
          ((noFilters(Order := [''Doric'']))
             (Order := set_delete ''Doric'' ((noFilters(Order := [''Doric''])) Order))) None = Inr D'
        \<and> sub_dataset [delphi\<lparr>buildings := [apollo]\<rparr>] D')"
proof -
  have h: "filteredData (Some [delphi]) (noFilters(Order := [''Doric''])) None
     = Inr [delphi\<lparr>buildings := [apollo]\<rparr>]"
    by (simp add: filteredData_def periodTags_def mapFeature_def buildingFilter_def set_size_def
        array_some_def array_includes_def ex_defs)
  have ne: "(noFilters(Order := [''Doric''])) Order \<noteq> []"
    by simp
  have e: "set_delete ''Doric'' ((noFilters(Order := [''Doric''])) Order) = []"
    by (simp add: set_delete_def)
  from filter_monotonicity_amended [OF h, of Order "''Ionic''" "''Doric''"] h ne e
  show ?thesis by (simp only: if_True if_False simp_thms)
qed

section \<open>The period lookup\<close>

lemma tagsOf_unknown:
  "pid \<notin> set (map seg_id timelineSegments) \<Longrightarrow> tagsOf pid = Inl TypeError"
proof -
  assume "pid \<notin> set (map seg_id timelineSegments)"
  then have "List.find (\<lambda>s. seg_id s = pid) timelineSegments = None"
    by (auto simp: find_None_iff)
  then show ?thesis by (simp add: tagsOf_def)
qed

lemma find_distinct_key:
  "distinct (map f xs) \<Longrightarrow> s \<in> set xs \<Longrightarrow> List.find (\<lambda>x. f x = f s) xs = Some s"
  by (induction xs) (auto simp: image_iff)

lemma seg_ids:
  "map seg_id timelineSegments =
     [''archaic'', ''classical'', ''hellenistic'', ''republican'', ''earlyEmpire'', ''lateEmpire'']"
  by (simp add: timelineSegments_def)

lemma tagsOf_known:
  "s \<in> set timelineSegments \<Longrightarrow> tagsOf (seg_id s) = Inr (seg_tags s)"
proof -
  assume s: "s \<in> set timelineSegments"
  have "distinct (map seg_id timelineSegments)"
    unfolding seg_ids by simp
  from find_distinct_key [OF this s] show ?thesis
    by (simp add: tagsOf_def)
qed

text \<open>
  C9 (unknown period id). For an id that no segment has, the lookup of the tags throws;
  a selected period with such an id (the empty string counts as no selection) makes the
  computation of the derived dataset throw instead of returning a dataset. For the id of
  each of the six segments the lookup returns the tags of that segment.
\<close>

theorem invalid_period:
  "(pid \<notin> set (map seg_id timelineSegments) \<longrightarrow>
      tagsOf pid = Inl TypeError
      \<and> (pid \<noteq> [] \<longrightarrow> periodTags (Some pid) = Inl TypeError
                        \<and> filteredData (Some d) fs (Some pid) = Inl TypeError))
   \<and> (\<forall>s\<in>set timelineSegments.
        tagsOf (seg_id s) = Inr (seg_tags s)
        \<and> periodTags (Some (seg_id s)) = Inr (Some (new_Set (seg_tags s))))"
proof (intro conjI impI ballI)
  assume u: "pid \<notin> set (map seg_id timelineSegments)"
  then show t: "tagsOf pid = Inl TypeError" by (rule tagsOf_unknown)
  assume "pid \<noteq> []"
  with t show "periodTags (Some pid) = Inl TypeError"
    by (simp add: periodTags_def)
  then show "filteredData (Some d) fs (Some pid) = Inl TypeError"
    by (simp add: filteredData_def)
next
  fix s assume s: "s \<in> set timelineSegments"
  then show t: "tagsOf (seg_id s) = Inr (seg_tags s)" by (rule tagsOf_known)
  from s have "seg_id s \<in> set (map seg_id timelineSegments)" by simp
  then have "seg_id s \<noteq> []" unfolding seg_ids by auto
  with t show "periodTags (Some (seg_id s)) = Inr (Some (new_Set (seg_tags s)))"
    by (simp add: periodTags_def)
qed

theorem invalid_period_witness:
  "''byzantine'' \<notin> set (map seg_id timelineSegments)
   \<and> tagsOf ''byzantine'' = Inl TypeError
   \<and> filteredData (Some [delphi]) noFilters (Some ''byzantine'') = Inl TypeError
   \<and> tagsOf ''archaic'' = Inr [''Archaic'', ''Late Archaic'', ''Peisistratid'']"
proof -
  have u: "''byzantine'' \<notin> set (map seg_id timelineSegments)"
    unfolding seg_ids by simp
  have ne: "''byzantine'' \<noteq> []" by simp
  let ?s = "\<lparr>seg_id = ''archaic'', seg_label = ''Archaic & Early'', seg_start = -800,
     seg_end = -480, seg_tags = [''Archaic'', ''Late Archaic'', ''Peisistratid'']\<rparr>"
  have k: "?s \<in> set timelineSegments"
    by (simp add: timelineSegments_def)
  from invalid_period [of "''byzantine''" "[delphi]" noFilters] u ne k
  have "tagsOf ''byzantine'' = Inl TypeError"
    "filteredData (Some [delphi]) noFilters (Some ''byzantine'') = Inl TypeError"
    "tagsOf (seg_id ?s) = Inr (seg_tags ?s)"
    by blast+
  with u show ?thesis by simp
qed

section \<open>Clearing the filters\<close>

text \<open>
  C10 (clearFilters also deselects the period). After \<open>clearFilters\<close> every selected set
  is empty and the selected period is none, nothing else of the state has changed, and the
  derived dataset computed next applies no attribute test and no period test.
\<close>

theorem clearFilters_resets_period:
  "(\<forall>a. filters (clearFilters st) a = [])
   \<and> selectedPeriod (clearFilters st) = None
   \<and> periodTags (selectedPeriod (clearFilters st)) = Inr None
   \<and> (\<forall>b. buildingFilter (filters (clearFilters st)) None b)
   \<and> filteredData (data (clearFilters st)) (filters (clearFilters st))
        (selectedPeriod (clearFilters st))
      = Inr (case data st of None \<Rightarrow> [] | Some d \<Rightarrow> filter (\<lambda>f. buildings f \<noteq> []) d)
   \<and> clearFilters st = st\<lparr>filters := noFilters, selectedPeriod := None\<rparr>"
proof -
  have f: "filters (clearFilters st) = noFilters"
    by (simp add: clearFilters_def noFilters_def new_Set_def)
  have p: "selectedPeriod (clearFilters st) = None"
    by (simp add: clearFilters_def)
  have d: "data (clearFilters st) = data st"
    by (simp add: clearFilters_def)
  have fd: "filteredData (data st) noFilters None
      = Inr (case data st of None \<Rightarrow> [] | Some d \<Rightarrow> filter (\<lambda>f. buildings f \<noteq> []) d)"
    by (cases "data st") (simp_all add: filteredData_noFilters, simp add: filteredData_def)
  show ?thesis
    unfolding f p d using fd
    by (simp add: buildingFilter_noFilters periodTags_def)
       (simp add: noFilters_def clearFilters_def new_Set_def)
qed

theorem clearFilters_resets_period_witness:
  "filters (clearFilters (ex_state\<lparr>selectedPeriod := Some ''archaic''\<rparr>)) Order = []
   \<and> selectedPeriod (clearFilters (ex_state\<lparr>selectedPeriod := Some ''archaic''\<rparr>)) = None
   \<and> filteredData (data (clearFilters (ex_state\<lparr>selectedPeriod := Some ''archaic''\<rparr>)))
        (filters (clearFilters (ex_state\<lparr>selectedPeriod := Some ''archaic''\<rparr>)))
        (selectedPeriod (clearFilters (ex_state\<lparr>selectedPeriod := Some ''archaic''\<rparr>)))
      = Inr [paestum, delphi]"
proof -
  let ?st = "ex_state\<lparr>selectedPeriod := Some ''archaic''\<rparr>"
  have c: "(case data ?st of None \<Rightarrow> []
         | Some d \<Rightarrow> filter (\<lambda>f. buildings f \<noteq> []) d) = [paestum, delphi]"
    by (simp add: ex_state_def ex_defs)
  from clearFilters_resets_period [of ?st]
  have "filters (clearFilters ?st) Order = []"
    and "selectedPeriod (clearFilters ?st) = None"
    and "filteredData (data (clearFilters ?st)) (filters (clearFilters ?st))
        (selectedPeriod (clearFilters ?st))
      = Inr (case data ?st of None \<Rightarrow> [] | Some d \<Rightarrow> filter (\<lambda>f. buildings f \<noteq> []) d)"
    by blast+
  then show ?thesis
    by (simp only: c simp_thms)
qed

section \<open>Selection consistency\<close>

text \<open>
  C6 (stale selection clearing). If the derived dataset is computed, a building is selected
  (a truthy doc id, as the effect tests it) and no building of the derived dataset has that
  doc id, then after the recomputation the building selection is none and the state is
  otherwise unchanged; in particular the selected site is the same.
\<close>

theorem stale_selection_cleared:
  assumes "filteredData (data st) (filters st) (selectedPeriod st) = Inr fd"
    and "truthy (selectedBuildingDocId st)"
    and "\<forall>f\<in>set fd. \<forall>b\<in>set (buildings f). Some (b_doc_id b) \<noteq> selectedBuildingDocId st"
  shows "\<exists>st'. recompute st = Inr st'
           \<and> selectedBuildingDocId st' = None
           \<and> selectedSite st' = selectedSite st
           \<and> st' = st\<lparr>selectedBuildingDocId := None\<rparr>"
proof -
  from assms(3) have
    "\<not> array_some (\<lambda>f. array_some (\<lambda>b. Some (b_doc_id b) = selectedBuildingDocId st)
          (buildings f)) fd"
    by (auto simp: array_some_def list_ex_iff)
  with assms(2) have "clearIfFilteredOut fd st = st\<lparr>selectedBuildingDocId := None\<rparr>"
    by (simp add: clearIfFilteredOut_def)
  with assms(1) show ?thesis
    by (simp add: recompute_def)
qed

theorem stale_selection_cleared_witness:
  "filteredData (data ex_state) (filters ex_state) (selectedPeriod ex_state)
     = Inr [delphi\<lparr>buildings := [treasury]\<rparr>]
   \<and> selectedBuildingDocId ex_state = Some ''B12''
   \<and> selectedSite ex_state = Some ''Paestum''
   \<and> (\<exists>st'. recompute ex_state = Inr st'
           \<and> selectedBuildingDocId st' = None
           \<and> selectedSite st' = Some ''Paestum'')"
proof -
  have fd: "filteredData (data ex_state) (filters ex_state) (selectedPeriod ex_state)
     = Inr [delphi\<lparr>buildings := [treasury]\<rparr>]"
    by (simp add: ex_state_def filteredData_def periodTags_def mapFeature_def
        buildingFilter_def set_size_def array_some_def array_includes_def ex_defs)
  have t: "truthy (selectedBuildingDocId ex_state)"
    by (simp add: truthy_def ex_state_def)
  have n: "\<forall>f\<in>set [delphi\<lparr>buildings := [treasury]\<rparr>]. \<forall>b\<in>set (buildings f).
      Some (b_doc_id b) \<noteq> selectedBuildingDocId ex_state"
    by (simp add: ex_state_def ex_defs)
  have s: "selectedBuildingDocId ex_state = Some ''B12''"
    "selectedSite ex_state = Some ''Paestum''"
    by (simp_all add: ex_state_def)
  from stale_selection_cleared [OF fd t n] fd s show ?thesis
    by auto
qed

lemma visibleDocIds_iff:
  "set_has (visibleDocIds fd sel) k \<longleftrightarrow>
     (\<exists>f. List.find (\<lambda>f. Some (site f) = sel) fd = Some f
          \<and> k \<in> set (map b_doc_id (buildings f)))"
  by (cases "List.find (\<lambda>f. Some (site f) = sel) fd")
     (simp_all add: visibleDocIds_def set_has_def set_new_Set)

lemma visibleDocIds_in_derived:
  assumes "set_has (visibleDocIds fd sel) k"
  shows "\<exists>f\<in>set fd. Some (site f) = sel \<and> k \<in> set (map b_doc_id (buildings f))"
proof -
  from assms obtain f where f: "List.find (\<lambda>f. Some (site f) = sel) fd = Some f"
    and k: "k \<in> set (map b_doc_id (buildings f))"
    unfolding visibleDocIds_iff by blast
  from f have "f \<in> set fd" "Some (site f) = sel"
    by (auto simp: find_Some_iff)
  with k show ?thesis by blast
qed

text \<open>
  C7 (visibility gate). A click on the list entry of a building whose doc id belongs to no
  building of the derived dataset under the selected site leaves the state unchanged;
  whenever a click changes the building selection, the new selection is the clicked doc id
  and it belongs to a building of the derived dataset under the selected site.
\<close>

theorem visibility_gate:
  "((\<forall>f\<in>set fd. Some (site f) = selectedSite st \<longrightarrow> k \<notin> set (map b_doc_id (buildings f)))
      \<longrightarrow> selectBuilding fd k st = st)
   \<and> (selectedBuildingDocId (selectBuilding fd k st) \<noteq> selectedBuildingDocId st
      \<longrightarrow> selectedBuildingDocId (selectBuilding fd k st) = Some k
          \<and> (\<exists>f\<in>set fd. Some (site f) = selectedSite st
                \<and> k \<in> set (map b_doc_id (buildings f))))"
proof (intro conjI impI)
  assume "\<forall>f\<in>set fd. Some (site f) = selectedSite st \<longrightarrow> k \<notin> set (map b_doc_id (buildings f))"
  with visibleDocIds_in_derived [of fd "selectedSite st" k]
  have "\<not> set_has (visibleDocIds fd (selectedSite st)) k" by blast
  then show "selectBuilding fd k st = st"
    by (simp add: selectBuilding_def)
next
  assume c: "selectedBuildingDocId (selectBuilding fd k st) \<noteq> selectedBuildingDocId st"
  then have v: "set_has (visibleDocIds fd (selectedSite st)) k"
    by (auto simp: selectBuilding_def split: if_splits)
  then show "selectedBuildingDocId (selectBuilding fd k st) = Some k"
    by (simp add: selectBuilding_def)
  from v show "\<exists>f\<in>set fd. Some (site f) = selectedSite st
                \<and> k \<in> set (map b_doc_id (buildings f))"
    by (rule visibleDocIds_in_derived)
qed

theorem visibility_gate_witness:
  "site (delphi\<lparr>buildings := [treasury]\<rparr>) = ''Delphi''
   \<and> selectedSite (siteClick ''Delphi'' ex_state) = Some ''Delphi''
   \<and> ''B1'' \<notin> set (map b_doc_id (buildings (delphi\<lparr>buildings := [treasury]\<rparr>)))
   \<and> selectBuilding [delphi\<lparr>buildings := [treasury]\<rparr>] ''B1'' (siteClick ''Delphi'' ex_state)
       = siteClick ''Delphi'' ex_state
   \<and> selectedBuildingDocId
        (selectBuilding [delphi\<lparr>buildings := [treasury]\<rparr>] ''B2'' (siteClick ''Delphi'' ex_state))
       = Some ''B2''"
proof -
  have s: "site (delphi\<lparr>buildings := [treasury]\<rparr>) = ''Delphi''"
    and t: "selectedSite (siteClick ''Delphi'' ex_state) = Some ''Delphi''"
    and n: "''B1'' \<notin> set (map b_doc_id (buildings (delphi\<lparr>buildings := [treasury]\<rparr>)))"
    by (simp_all add: siteClick_def ex_defs)
  from n have h: "\<forall>f\<in>set [delphi\<lparr>buildings := [treasury]\<rparr>].
       Some (site f) = selectedSite (siteClick ''Delphi'' ex_state)
       \<longrightarrow> ''B1'' \<notin> set (map b_doc_id (buildings f))"
    by simp
  have c: "selectedBuildingDocId
        (selectBuilding [delphi\<lparr>buildings := [treasury]\<rparr>] ''B2'' (siteClick ''Delphi'' ex_state))
       = Some ''B2''"
    by (simp add: selectBuilding_def visibleDocIds_def siteClick_def new_Set_def set_add_def
        set_has_def ex_defs)
  from visibility_gate [of "[delphi\<lparr>buildings := [treasury]\<rparr>]"
      "siteClick ''Delphi'' ex_state" "''B1''"] h s t n c
  show ?thesis by blast
qed

section \<open>The morphology options\<close>

lemma addBuilding_morphology:
  "fst (snd (addBuilding b acc)) = fold set_add (b_morphology b) (fst (snd acc))"
  by (cases acc) (simp add: addBuilding_def)

lemma fold_addBuilding_morphology:
  "set (fst (snd (fold addBuilding bs acc)))
     = set (fst (snd acc)) \<union> (\<Union>b\<in>set bs. set (b_morphology b))"
  by (induction bs arbitrary: acc)
     (auto simp: addBuilding_morphology set_fold_set_add)

lemma fold_features_morphology:
  "set (fst (snd (fold (\<lambda>f acc. fold addBuilding (buildings f) acc) fs acc)))
     = set (fst (snd acc)) \<union> (\<Union>f\<in>set fs. \<Union>b\<in>set (buildings f). set (b_morphology b))"
  by (induction fs arbitrary: acc)
     (auto simp: fold_addBuilding_morphology)

lemma set_collectOptions_morphology:
  "set (fst (snd (collectOptions d)))
     = (\<Union>f\<in>set d. \<Union>b\<in>set (buildings f). set (b_morphology b))"
  by (simp add: collectOptions_def fold_features_morphology)

lemma allOptions_Morphology:
  "allOptions (Some d) Morphology
     = sort (filter (\<lambda>v. array_includes allowedMorphologies v) (fst (snd (collectOptions d))))"
  by (simp add: allOptions_def split: prod.splits)

lemma allOptions_v4_Morphology:
  "allOptions_v4 (Some d) Morphology = sort (fst (snd (collectOptions d)))"
  by (simp add: allOptions_v4_def split: prod.splits)

lemma allOptions_allowed:
  "(\<forall>v\<in>set (allOptions dat Morphology). v \<in> set allowedMorphologies)
   \<and> set (allOptions (Some d) Morphology)
       = (\<Union>f\<in>set d. \<Union>b\<in>set (buildings f). set (b_morphology b)) \<inter> set allowedMorphologies"
proof
  show "\<forall>v\<in>set (allOptions dat Morphology). v \<in> set allowedMorphologies"
  proof (cases dat)
    case None
    then show ?thesis by (simp add: allOptions_def)
  next
    case (Some d')
    then show ?thesis
      by (simp add: allOptions_Morphology array_includes_def)
  qed
  show "set (allOptions (Some d) Morphology)
       = (\<Union>f\<in>set d. \<Union>b\<in>set (buildings f). set (b_morphology b)) \<inter> set allowedMorphologies"
    unfolding allOptions_Morphology
    by (auto simp: set_collectOptions_morphology array_includes_def)
qed

lemma collectOptions_delphi:
  "collectOptions [delphi] = ([''Doric'', ''Ionic''],
      [''peripteral'', ''hexastyle'', ''treasury'', ''distyle in antis''],
      [''Classical'', ''Archaic''])"
  by (simp add: collectOptions_def addBuilding_def set_add_def set_has_def ex_defs)

text \<open>
  C5 (morphology option restriction). As stated the claim fails on the component of
  \<open>SiteMap_v4.js\<close>: its \<open>allOptions\<close> has no allow-list, and a morphology tag outside the
  allow-list of the other variant is among its morphology options.
\<close>

theorem morphology_options_v4_counterexample:
  "allOptions_v4 (Some [delphi]) Morphology
     = [''distyle in antis'', ''hexastyle'', ''peripteral'', ''treasury'']
   \<and> ''treasury'' \<notin> set allowedMorphologies"
proof -
  have s: "sort [''peripteral'', ''hexastyle'', ''treasury'', ''distyle in antis'']
      = [''distyle in antis'', ''hexastyle'', ''peripteral'', ''treasury'']"
    by simp
  have e: "allOptions_v4 (Some [delphi]) Morphology
     = [''distyle in antis'', ''hexastyle'', ''peripteral'', ''treasury'']"
    by (simp only: allOptions_v4_Morphology collectOptions_delphi fst_conv snd_conv s)
  have n: "''treasury'' \<notin> set allowedMorphologies"
    by (simp add: allowedMorphologies_def)
  from e n show ?thesis by blast
qed

text \<open>
  C5, amended. In the variant that defines the allow-list, every value of the morphology
  option list is in the allow-list: the list holds exactly the morphology tags of the
  dataset that the allow-list has, so a tag outside the allow-list is never an option
  there. In the variant of \<open>SiteMap_v4.js\<close>, which has no allow-list, the morphology
  option list holds every morphology tag of the dataset.
\<close>

theorem morphology_options_amended:
  "(\<forall>v\<in>set (allOptions dat Morphology). v \<in> set allowedMorphologies)
   \<and> set (allOptions (Some d) Morphology)
       = (\<Union>f\<in>set d. \<Union>b\<in>set (buildings f). set (b_morphology b)) \<inter> set allowedMorphologies
   \<and> set (allOptions_v4 (Some d) Morphology)
       = (\<Union>f\<in>set d. \<Union>b\<in>set (buildings f). set (b_morphology b))
   \<and> allOptions_v4 None Morphology = []"
proof -
  have v4: "set (allOptions_v4 (Some d) Morphology)
       = (\<Union>f\<in>set d. \<Union>b\<in>set (buildings f). set (b_morphology b))"
    by (simp add: allOptions_v4_Morphology set_collectOptions_morphology)
  have n: "allOptions_v4 None Morphology = []"
    by (simp add: allOptions_v4_def)
  from allOptions_allowed [of dat d] v4 n show ?thesis by blast
qed

theorem morphology_options_amended_witness:
  "allOptions (Some [delphi]) Morphology = [''distyle in antis'', ''hexastyle'', ''peripteral'']
   \<and> ''treasury'' \<in> set (b_morphology treasury)
   \<and> ''treasury'' \<notin> set allowedMorphologies
   \<and> ''treasury'' \<notin> set (allOptions (Some [delphi]) Morphology)
   \<and> ''treasury'' \<in> set (allOptions_v4 (Some [delphi]) Morphology)"
proof -
  have f: "filter (\<lambda>v. array_includes allowedMorphologies v)
      [''peripteral'', ''hexastyle'', ''treasury'', ''distyle in antis'']
      = [''peripteral'', ''hexastyle'', ''distyle in antis'']"
    by (simp add: array_includes_def allowedMorphologies_def)
  have s: "sort [''peripteral'', ''hexastyle'', ''distyle in antis'']
      = [''distyle in antis'', ''hexastyle'', ''peripteral'']"
    by simp
  have e: "allOptions (Some [delphi]) Morphology
      = [''distyle in antis'', ''hexastyle'', ''peripteral'']"
    by (simp only: allOptions_Morphology collectOptions_delphi fst_conv snd_conv f s)
  have t: "''treasury'' \<in> set (b_morphology treasury)"
    by (simp add: treasury_def)
  then have u: "''treasury'' \<in> (\<Union>f\<in>set [delphi]. \<Union>b\<in>set (buildings f). set (b_morphology b))"
    by (simp add: delphi_def)
  have n: "''treasury'' \<notin> set allowedMorphologies"
    by (simp add: allowedMorphologies_def)
  from morphology_options_amended [of "Some [delphi]" "[delphi]"] e t u n
  show ?thesis by blast
qed

section \<open>The loader and the raw payload\<close>

text \<open>
  C4 (the sanitizer and the raw payload). As stated the claim fails: the loader assigns the
  cleaned array to the property of the building object of the payload itself, so the
  payload read after the load differs from the payload as received.
\<close>

theorem sanitizer_mutates_payload_counterexample:
  "readAttr ex_heap 0 ''order''
     = Some (JArr [Some ''Doric'', Some ''Undetermined'', None, Some ''<NA>'', Some []])
   \<and> readAttr (snd (loadData ex_raw ex_heap)) 0 ''order'' = Some (JArr [Some ''Doric''])
   \<and> fst (loadData ex_raw ex_heap) = ex_raw"
  by (simp add: readAttr_def loadData_def sanitize_def sanitizeAt_def sanitizeBuilding_def
      sanitizeAttr_def keepValue_def toLowerCase_def toLowerCase_char_def ex_heap_def ex_raw_def)

text \<open>
  C4, amended. The loader publishes the payload object it received, not a copy. In that
  payload, every building that a feature refers to has each of its properties \<open>order\<close>,
  \<open>morphology\<close>, \<open>age\<close> and \<open>date\<close> that holds an array replaced by the array of the values
  kept; its other properties, and all other objects, are as received.
\<close>

theorem sanitizer_in_place_amended:
  "fst (loadData raw h) = raw
   \<and> snd (loadData raw h) a
       = (if a \<in> (\<Union>f\<in>set raw. set (rf_buildings f)) then map_option sanitizeBuilding (h a)
          else h a)
   \<and> sanitizeBuilding b k
       = (if k \<in> {''order'', ''morphology'', ''age'', ''date''}
          then (case b k of Some (JArr xs) \<Rightarrow> Some (JArr (filter keepValue xs)) | v \<Rightarrow> v)
          else b k)"
  by (simp only: loadData_def fst_conv snd_conv sanitize_apply sanitizeBuilding_apply simp_thms)

theorem sanitizer_in_place_amended_witness:
  "0 \<in> (\<Union>f\<in>set ex_raw. set (rf_buildings f))
   \<and> snd (loadData ex_raw ex_heap) 0 = map_option sanitizeBuilding (ex_heap 0)
   \<and> 1 \<notin> (\<Union>f\<in>set ex_raw. set (rf_buildings f))
   \<and> snd (loadData ex_raw ex_heap) 1 = ex_heap 1
   \<and> ''order'' \<in> {''order'', ''morphology'', ''age'', ''date''}
   \<and> sanitizeBuilding [''order'' \<mapsto> JArr [Some ''Doric'', None]] ''order''
       = Some (JArr [Some ''Doric''])
   \<and> ''doc_id'' \<notin> {''order'', ''morphology'', ''age'', ''date''}
   \<and> sanitizeBuilding [''doc_id'' \<mapsto> JStr ''B1''] ''doc_id'' = Some (JStr ''B1'')"
proof -
  have m: "0 \<in> (\<Union>f\<in>set ex_raw. set (rf_buildings f))"
    "1 \<notin> (\<Union>f\<in>set ex_raw. set (rf_buildings f))"
    by (simp_all add: ex_raw_def)
  have k: "''order'' \<in> {''order'', ''morphology'', ''age'', ''date''}"
    "''doc_id'' \<notin> {''order'', ''morphology'', ''age'', ''date''}"
    by simp_all
  have f: "filter keepValue [Some ''Doric'', None] = [Some ''Doric'']"
    by (simp add: keepValue_def toLowerCase_def toLowerCase_char_def)
  from sanitizer_in_place_amended [of ex_raw ex_heap 0 "[''order'' \<mapsto> JArr [Some ''Doric'', None]]"
      "''order''"] m(1) k(1) f
  have a: "snd (loadData ex_raw ex_heap) 0 = map_option sanitizeBuilding (ex_heap 0)"
    "sanitizeBuilding [''order'' \<mapsto> JArr [Some ''Doric'', None]] ''order''
       = Some (JArr [Some ''Doric''])"
    by simp_all
  from sanitizer_in_place_amended [of ex_raw ex_heap 1 "[''doc_id'' \<mapsto> JStr ''B1'']"
      "''doc_id''"] m(2) k(2)
  have b: "snd (loadData ex_raw ex_heap) 1 = ex_heap 1"
    "sanitizeBuilding [''doc_id'' \<mapsto> JStr ''B1''] ''doc_id'' = Some (JStr ''B1'')"
    by simp_all
  from m k a b show ?thesis by blast
qed

end
